theory Spec2Isabelle
  imports Main
begin

section \<open>Text: lower-casing, the address format, SQL pattern matching\<close>

text \<open>
  Strings are lists of characters. \<open>toLowerCase\<close> is JavaScript's
  \<open>String.prototype.toLowerCase\<close> on the ASCII range: the letters A to Z move to a to z,
  every other character stays. JavaScript also folds letters outside ASCII, which the model
  leaves as they are. Every string that passes the address format test below is ASCII, so on
  those the model and JavaScript agree character by character.
\<close>

definition is_upper_ascii :: "char \<Rightarrow> bool" where
  "is_upper_ascii c \<longleftrightarrow> 65 \<le> (of_char c :: nat) \<and> (of_char c :: nat) \<le> 90"

definition lower_char :: "char \<Rightarrow> char" where
  "lower_char c = (if is_upper_ascii c then char_of ((of_char c :: nat) + 32) else c)"

definition toLowerCase :: "string \<Rightarrow> string" where
  "toLowerCase s = map lower_char s"

text \<open>The character class \<open>[a-fA-F0-9]\<close> of the handlers' regular expression.\<close>

definition hex_class :: "char \<Rightarrow> bool" where
  "hex_class c \<longleftrightarrow> c \<in> set ''abcdefABCDEF0123456789''"

definition lower_hex :: "char \<Rightarrow> bool" where
  "lower_hex c \<longleftrightarrow> c \<in> set ''abcdef0123456789''"

text \<open>
  \<open>w.match(/^0x[a-fA-F0-9]{40}$/)\<close> of \<open>handleRegisterUser\<close> and \<open>handleUpdateWallet\<close>:
  the two characters \<open>0x\<close>, then exactly forty characters of the class, then the end of the
  string (no multiline flag, so \<open>$\<close> is the end of the input).
\<close>

definition matches_wallet_regex :: "string \<Rightarrow> bool" where
  "matches_wallet_regex w =
     (case w of
        c0 # c1 # digits \<Rightarrow>
          c0 = CHR ''0'' \<and> c1 = CHR ''x'' \<and> length digits = 40 \<and> list_all hex_class digits
      | _ \<Rightarrow> False)"

text \<open>
  The canonical stored form of the data model: \<open>0x\<close> followed by forty lower-case
  hexadecimal digits.
\<close>

definition canonical_wallet :: "string \<Rightarrow> bool" where
  "canonical_wallet w \<longleftrightarrow>
     length w = 42 \<and> take 2 w = ''0x'' \<and> list_all lower_hex (drop 2 w)"

text \<open>
  The normalisation an address goes through between a form and the store: the format test of
  the handler, then \<open>toLowerCase\<close> in the service. \<open>None\<close> is the handler's rejection.
\<close>

definition normalizeWallet :: "string \<Rightarrow> string option" where
  "normalizeWallet w = (if matches_wallet_regex w then Some (toLowerCase w) else None)"

text \<open>
  SQL \<open>LIKE\<close>: \<open>%\<close> stands for any run of characters, \<open>_\<close> for any one character, a
  backslash takes the next pattern character literally. \<open>ILIKE\<close> is \<open>LIKE\<close> with case
  folded on both sides. A pattern that ends in a lone backslash makes the query fail.
\<close>

fun like_match :: "string \<Rightarrow> string \<Rightarrow> bool" where
  "like_match [] [] = True"
| "like_match [] (x # t) = False"
| "like_match (c # p) [] = (c = CHR ''%'' \<and> like_match p [])"
| "like_match (c # p) (x # t) =
     (if c = CHR ''%'' then like_match p (x # t) \<or> like_match (c # p) t
      else if c = CHR ''_'' then like_match p t
      else if c = CHR 0x5C then
        (case p of [] \<Rightarrow> False | e # p' \<Rightarrow> x = e \<and> like_match p' t)
      else x = c \<and> like_match p t)"


definition ilike :: "string \<Rightarrow> string \<Rightarrow> bool" where
  "ilike txt pat = like_match (toLowerCase pat) (toLowerCase txt)"

text \<open>The characters that stand for themselves in a \<open>LIKE\<close> pattern.\<close>

definition plain_char :: "char \<Rightarrow> bool" where
  "plain_char c \<longleftrightarrow> c \<noteq> CHR ''%'' \<and> c \<noteq> CHR ''_'' \<and> c \<noteq> CHR 0x5C"

section \<open>The data model\<close>

type_synonym uuid = nat
type_synonym timestamptz = nat

text \<open>
  Modelled from the spec: the enum type \<open>public.user_role_category\<close> is declared in a
  migration that is not among the files; the spec lists its six values. \<open>role_text\<close> is the
  cast \<open>role_category::TEXT\<close>, the strings the services compare with.
\<close>

datatype user_role_category = Judiciary | Lawyer | Clerk | Police | Public_party | Admin


text \<open>
  A row of \<open>public.profiles\<close>, with the columns the services read and write. The boolean
  column has \<open>DEFAULT false\<close> and every writer stores a boolean, so it is a \<open>bool\<close>.
\<close>

record profile =
  id_profile :: uuid
  user_id :: uuid
  email :: string
  full_name :: string
  role_category :: user_role_category
  phone :: "string option"
  wallet_address :: "string option"
  is_wallet_verified :: bool
  wallet_verified_at :: "timestamptz option"

text \<open>
  A row of \<open>public.wallet_audit_log\<close>. Its generated primary key is read by no operation and
  is left out.
\<close>

record wallet_audit_row =
  profile_id :: uuid
  action :: string
  old_value :: "string option"
  new_value :: "string option"
  changed_by :: "uuid option"
  changed_at :: timestamptz

text \<open>
  The store: the two tables, the identities held by the authentication provider, and the
  administrative calls issued to the provider so far.
\<close>

datatype auth_admin_call = CreateUser string | DeleteUser uuid

record store =
  profiles :: "profile list"
  wallet_audit_log :: "wallet_audit_row list"
  auth_users :: "uuid list"
  auth_admin_calls :: "auth_admin_call list"

text \<open>
  What the outside decides during one call: the signed-in identity
  (\<open>supabase.auth.getUser()\<close>, which is also \<open>auth.uid()\<close> inside the database), the clock, the
  answer of the provider to \<open>createUser\<close> and \<open>deleteUser\<close>, the key generated for a new
  profile row, and infrastructure failures of the write to \<open>profiles\<close> and of the explicit
  insert into \<open>wallet_audit_log\<close>.
\<close>

record env =
  currentAuthUser :: "uuid option"
  now :: timestamptz
  createUser_result :: "string + uuid"
  deleteUser_error :: "string option"
  gen_random_uuid :: uuid
  profiles_write_error :: "string option"
  audit_insert_error :: "string option"

section \<open>The database: constraints, trigger, statements\<close>

text \<open>
  The tables are lists of rows in insertion order. The model has the constraints the migration
  declares (the unique wallet address, the foreign keys of the audit log) and its trigger. The
  row-level security policies are left out: they depend on roles and on further policies that
  are declared outside the files at hand.
\<close>

text \<open>\<open>.maybeSingle()\<close>: the row when exactly one matches, no data otherwise.\<close>

definition maybeSingle :: "'a list \<Rightarrow> 'a option" where
  "maybeSingle rows = (case rows of [r] \<Rightarrow> Some r | _ \<Rightarrow> None)"

text \<open>The primary key of \<open>profiles\<close> and \<open>wallet_address TEXT UNIQUE\<close> (NULLs never clash).\<close>

definition stored_wallets :: "profile list \<Rightarrow> string list" where
  "stored_wallets ps = List.map_filter wallet_address ps"

definition profiles_constraints_ok :: "profile list \<Rightarrow> bool" where
  "profiles_constraints_ok ps \<longleftrightarrow> distinct (map id_profile ps) \<and> distinct (stored_wallets ps)"

text \<open>
  The foreign keys of \<open>wallet_audit_log\<close>: \<open>profile_id\<close> and a non-null \<open>changed_by\<close> both
  reference \<open>profiles(id)\<close>.
\<close>

definition audit_fk_ok :: "profile list \<Rightarrow> wallet_audit_row \<Rightarrow> bool" where
  "audit_fk_ok ps a \<longleftrightarrow>
     profile_id a \<in> set (map id_profile ps) \<and>
     (case changed_by a of None \<Rightarrow> True | Some u \<Rightarrow> u \<in> set (map id_profile ps))"

definition bool_text :: "bool \<Rightarrow> string" where
  "bool_text b = (if b then ''true'' else ''false'')"

text \<open>
  The trigger function \<open>log_wallet_change\<close>, run after the update of a row: the rows it
  inserts, in order. \<open>IS DISTINCT FROM\<close> is inequality with NULL as a value.
\<close>

definition log_wallet_change :: "uuid option \<Rightarrow> timestamptz \<Rightarrow> profile \<Rightarrow> profile \<Rightarrow> wallet_audit_row list" where
  "log_wallet_change uid t OLD NEW =
     (if wallet_address OLD \<noteq> wallet_address NEW
      then [\<lparr>profile_id = id_profile NEW, action = ''wallet_changed'',
             old_value = wallet_address OLD, new_value = wallet_address NEW,
             changed_by = uid, changed_at = t\<rparr>]
      else []) @
     (if is_wallet_verified OLD \<noteq> is_wallet_verified NEW
      then [\<lparr>profile_id = id_profile NEW,
             action = (if is_wallet_verified NEW then ''wallet_verified'' else ''wallet_unverified''),
             old_value = Some (bool_text (is_wallet_verified OLD)),
             new_value = Some (bool_text (is_wallet_verified NEW)),
             changed_by = uid, changed_at = t\<rparr>]
      else [])"

text \<open>\<open>INSERT INTO profiles\<close>: refused on an infrastructure failure or a violated constraint.\<close>

definition insert_profile :: "env \<Rightarrow> profile \<Rightarrow> store \<Rightarrow> string + store" where
  "insert_profile e row s =
     (case profiles_write_error e of
        Some msg \<Rightarrow> Inl msg
      | None \<Rightarrow>
          if profiles_constraints_ok (profiles s @ [row])
          then Inr (s\<lparr>profiles := profiles s @ [row]\<rparr>)
          else Inl ''duplicate key value violates unique constraint'')"

text \<open>
  \<open>UPDATE profiles SET ... WHERE id = pid\<close> with its row trigger. The statement is one
  transaction: a violated constraint, also of a row the trigger inserts, undoes all of it.
  The unique constraint is checked on the table as the statement would leave it; on a table
  that satisfied it before, that is the check of the new values against the other rows.
\<close>

definition update_profiles :: "env \<Rightarrow> uuid \<Rightarrow> (profile \<Rightarrow> profile) \<Rightarrow> store \<Rightarrow> string + store" where
  "update_profiles e pid upd s =
     (case profiles_write_error e of
        Some msg \<Rightarrow> Inl msg
      | None \<Rightarrow>
          let ps' = map (\<lambda>p. if id_profile p = pid then upd p else p) (profiles s);
              logged = concat (map (\<lambda>p. if id_profile p = pid
                                         then log_wallet_change (currentAuthUser e) (now e) p (upd p)
                                         else []) (profiles s))
          in if \<not> distinct (stored_wallets ps')
             then Inl ''duplicate key value violates unique constraint''
             else if \<not> list_all (audit_fk_ok ps') logged
             then Inl ''insert or update on table wallet_audit_log violates foreign key constraint''
             else Inr (s\<lparr>profiles := ps', wallet_audit_log := wallet_audit_log s @ logged\<rparr>))"

text \<open>The explicit \<open>INSERT INTO wallet_audit_log\<close> of the services.\<close>

definition insert_audit :: "env \<Rightarrow> wallet_audit_row \<Rightarrow> store \<Rightarrow> string + store" where
  "insert_audit e a s =
     (case audit_insert_error e of
        Some msg \<Rightarrow> Inl msg
      | None \<Rightarrow>
          if audit_fk_ok (profiles s) a
          then Inr (s\<lparr>wallet_audit_log := wallet_audit_log s @ [a]\<rparr>)
          else Inl ''insert or update on table wallet_audit_log violates foreign key constraint'')"

text \<open>The provider's \<open>auth.admin.deleteUser\<close>.\<close>

definition deleteUser :: "env \<Rightarrow> uuid \<Rightarrow> store \<Rightarrow> store" where
  "deleteUser e u s =
     (case deleteUser_error e of
        None \<Rightarrow> s\<lparr>auth_users := removeAll u (auth_users s),
                    auth_admin_calls := auth_admin_calls s @ [DeleteUser u]\<rparr>
      | Some msg \<Rightarrow> s\<lparr>auth_admin_calls := auth_admin_calls s @ [DeleteUser u]\<rparr>)"

section \<open>The administrative services\<close>

record UserRegistration =
  email_reg :: string
  fullName :: string
  walletAddress :: string
  roleCategory :: user_role_category
  phone_reg :: "string option"

record WalletUpdateRequest =
  profileId_req :: uuid
  newWalletAddress :: string
  reason :: string

record service_result =
  success :: bool
  profileId :: "uuid option"
  error :: "string option"

definition failed :: "string \<Rightarrow> service_result" where
  "failed msg = \<lparr>success = False, profileId = None, error = Some msg\<rparr>"

text \<open>
  The role of the caller: the \<open>role_category\<close> of the one profile whose \<open>user_id\<close> is the
  signed-in identity, and the test \<open>role !== "admin" && role !== "judiciary"\<close> negated.
\<close>

definition caller_role :: "store \<Rightarrow> uuid \<Rightarrow> user_role_category option" where
  "caller_role s uid =
     map_option role_category (maybeSingle (filter (\<lambda>p. user_id p = uid) (profiles s)))"

definition may_administer :: "user_role_category option \<Rightarrow> bool" where
  "may_administer r \<longleftrightarrow> r = Some Admin \<or> r = Some Judiciary"

text \<open>The row that \<open>adminRegisterUserWithWallet\<close> inserts for the identity \<open>u\<close>.\<close>

definition registration_row :: "env \<Rightarrow> UserRegistration \<Rightarrow> uuid \<Rightarrow> profile" where
  "registration_row e reg u =
     \<lparr>id_profile = gen_random_uuid e, user_id = u, email = email_reg reg,
      full_name = fullName reg, role_category = roleCategory reg,
      phone = (case phone_reg reg of None \<Rightarrow> None | Some ph \<Rightarrow> if ph = [] then None else Some ph),
      wallet_address = Some (toLowerCase (walletAddress reg)),
      is_wallet_verified = True, wallet_verified_at = Some (now e)\<rparr>"

definition adminRegisterUserWithWallet :: "env \<Rightarrow> UserRegistration \<Rightarrow> store \<Rightarrow> service_result \<times> store" where
  "adminRegisterUserWithWallet e registration s =
     (case currentAuthUser e of
        None \<Rightarrow> (failed ''Not authenticated'', s)
      | Some uid \<Rightarrow>
          if \<not> may_administer (caller_role s uid)
          then (failed ''Unauthorized: Only admins can register users'', s)
          else
            let normalizedWallet = toLowerCase (walletAddress registration) in
            if maybeSingle (filter (\<lambda>p. wallet_address p = Some normalizedWallet) (profiles s)) \<noteq> None
            then (failed ''This wallet address is already registered'', s)
            else if maybeSingle (filter (\<lambda>p. email p = email_reg registration) (profiles s)) \<noteq> None
            then (failed ''This email is already registered'', s)
            else
              let s0 = s\<lparr>auth_admin_calls := auth_admin_calls s @ [CreateUser (email_reg registration)]\<rparr> in
              (case createUser_result e of
                 Inl msg \<Rightarrow> (failed (''Failed to create auth user: '' @ msg), s0)
               | Inr u \<Rightarrow>
                   let s1 = s0\<lparr>auth_users := auth_users s0 @ [u]\<rparr> in
                   (case insert_profile e (registration_row e registration u) s1 of
                      Inl msg \<Rightarrow> (failed (''Failed to create profile: '' @ msg), deleteUser e u s1)
                    | Inr s2 \<Rightarrow>
                        (\<lparr>success = True, profileId = Some (gen_random_uuid e), error = None\<rparr>,
                         (case insert_audit e
                                 \<lparr>profile_id = gen_random_uuid e, action = ''wallet_added'',
                                  old_value = None, new_value = Some normalizedWallet,
                                  changed_by = Some uid, changed_at = now e\<rparr> s2 of
                            Inl msg \<Rightarrow> s2
                          | Inr s3 \<Rightarrow> s3)))))"

definition adminUpdateUserWallet :: "env \<Rightarrow> WalletUpdateRequest \<Rightarrow> store \<Rightarrow> service_result \<times> store" where
  "adminUpdateUserWallet e request s =
     (case currentAuthUser e of
        None \<Rightarrow> (failed ''Not authenticated'', s)
      | Some uid \<Rightarrow>
          if \<not> may_administer (caller_role s uid)
          then (failed ''Unauthorized: Only admins can update wallets'', s)
          else
            let normalizedWallet = toLowerCase (newWalletAddress request) in
            (case maybeSingle (filter (\<lambda>p. id_profile p = profileId_req request) (profiles s)) of
               None \<Rightarrow> (failed ''Profile not found'', s)
             | Some prof \<Rightarrow>
                 if maybeSingle (filter (\<lambda>p. wallet_address p = Some normalizedWallet \<and>
                                             id_profile p \<noteq> profileId_req request) (profiles s)) \<noteq> None
                 then (failed ''New wallet address is already in use'', s)
                 else
                   (case update_profiles e (profileId_req request)
                           (\<lambda>p. p\<lparr>wallet_address := Some normalizedWallet,
                                  is_wallet_verified := True,
                                  wallet_verified_at := Some (now e)\<rparr>) s of
                      Inl msg \<Rightarrow> (failed (''Failed to update wallet: '' @ msg), s)
                    | Inr s1 \<Rightarrow>
                        (\<lparr>success = True, profileId = None, error = None\<rparr>,
                         (case insert_audit e
                                 \<lparr>profile_id = profileId_req request, action = ''wallet_changed'',
                                  old_value = (case wallet_address prof of
                                                 None \<Rightarrow> None
                                               | Some w \<Rightarrow> if w = [] then None else Some w),
                                  new_value = Some normalizedWallet,
                                  changed_by = Some uid, changed_at = now e\<rparr> s1 of
                            Inl msg \<Rightarrow> s1
                          | Inr s2 \<Rightarrow> s2)))))"

definition adminVerifyWallet :: "env \<Rightarrow> uuid \<Rightarrow> bool \<Rightarrow> store \<Rightarrow> service_result \<times> store" where
  "adminVerifyWallet e pid verify s =
     (case update_profiles e pid
             (\<lambda>p. p\<lparr>is_wallet_verified := verify,
                    wallet_verified_at := (if verify then Some (now e) else None)\<rparr>) s of
        Inl msg \<Rightarrow> (failed msg, s)
      | Inr s1 \<Rightarrow> (\<lparr>success = True, profileId = None, error = None\<rparr>, s1))"

section \<open>The authorization query\<close>






section \<open>The handlers of the administration console\<close>

datatype toast = Toast_error string | Toast_success

record registerForm =
  email_form :: string
  fullName_form :: string
  walletAddress_form :: string
  roleCategory_form :: user_role_category
  phone_form :: string

record updateForm =
  profileId_form :: "uuid option"
  newWalletAddress_form :: string
  reason_form :: string

definition toast_of :: "service_result \<Rightarrow> string \<Rightarrow> toast" where
  "toast_of r fallback =
     (if success r then Toast_success
      else Toast_error (case error r of None \<Rightarrow> fallback | Some m \<Rightarrow> if m = [] then fallback else m))"

definition handleRegisterUser :: "env \<Rightarrow> registerForm \<Rightarrow> store \<Rightarrow> toast \<times> store" where
  "handleRegisterUser e form s =
     (if email_form form = [] \<or> fullName_form form = [] \<or> walletAddress_form form = []
      then (Toast_error ''Please fill in all required fields'', s)
      else if \<not> matches_wallet_regex (walletAddress_form form)
      then (Toast_error ''Invalid wallet address format (should be 0x followed by 40 hex characters)'', s)
      else
        (case adminRegisterUserWithWallet e
                \<lparr>email_reg = email_form form, fullName = fullName_form form,
                 walletAddress = walletAddress_form form, roleCategory = roleCategory_form form,
                 phone_reg = (if phone_form form = [] then None else Some (phone_form form))\<rparr> s of
           (r, s') \<Rightarrow> (toast_of r ''Failed to register user'', s')))"

definition handleUpdateWallet :: "env \<Rightarrow> updateForm \<Rightarrow> store \<Rightarrow> toast \<times> store" where
  "handleUpdateWallet e form s =
     (case profileId_form form of
        None \<Rightarrow> (Toast_error ''Please fill in all required fields'', s)
      | Some pid \<Rightarrow>
          if newWalletAddress_form form = []
          then (Toast_error ''Please fill in all required fields'', s)
          else if \<not> matches_wallet_regex (newWalletAddress_form form)
          then (Toast_error ''Invalid wallet address format'', s)
          else
            (case adminUpdateUserWallet e
                    \<lparr>profileId_req = pid, newWalletAddress = newWalletAddress_form form,
                     reason = (if reason_form form = [] then ''Admin updated'' else reason_form form)\<rparr> s of
               (r, s') \<Rightarrow> (toast_of r ''Failed to update wallet'', s')))"

section \<open>Sequences of calls\<close>

datatype call =
    Register env UserRegistration
  | UpdateWallet env WalletUpdateRequest
  | VerifyWallet env uuid bool
  | FormRegister env registerForm
  | FormUpdate env updateForm

fun step :: "call \<Rightarrow> store \<Rightarrow> store" where
  "step (Register e reg) s = snd (adminRegisterUserWithWallet e reg s)"
| "step (UpdateWallet e req) s = snd (adminUpdateUserWallet e req s)"
| "step (VerifyWallet e pid v) s = snd (adminVerifyWallet e pid v s)"
| "step (FormRegister e form) s = snd (handleRegisterUser e form s)"
| "step (FormUpdate e form) s = snd (handleUpdateWallet e form s)"

definition run :: "call list \<Rightarrow> store \<Rightarrow> store" where
  "run cs s = foldl (\<lambda>st c. step c st) s cs"

text \<open>The calls that reach the store through the console: the two forms and the toggle.\<close>

fun through_console :: "call \<Rightarrow> bool" where
  "through_console (Register e reg) = False"
| "through_console (UpdateWallet e req) = False"
| "through_console (VerifyWallet e pid v) = True"
| "through_console (FormRegister e form) = True"
| "through_console (FormUpdate e form) = True"

section \<open>The invariants of the data model\<close>

definition wallets_unique :: "store \<Rightarrow> bool" where
  "wallets_unique s \<longleftrightarrow> distinct (stored_wallets (profiles s))"

definition emails_unique :: "store \<Rightarrow> bool" where
  "emails_unique s \<longleftrightarrow> distinct (map email (profiles s))"

definition verified_iff_stamped :: "profile \<Rightarrow> bool" where
  "verified_iff_stamped p \<longleftrightarrow> (is_wallet_verified p \<longleftrightarrow> wallet_verified_at p \<noteq> None)"

definition wallet_canonical_or_null :: "profile \<Rightarrow> bool" where
  "wallet_canonical_or_null p =
     (case wallet_address p of None \<Rightarrow> True | Some w \<Rightarrow> canonical_wallet w)"

definition wallets_canonical :: "store \<Rightarrow> bool" where
  "wallets_canonical s \<longleftrightarrow> list_all wallet_canonical_or_null (profiles s)"

text \<open>What the services keep on their own: a stored address is its own lower-casing.\<close>

definition wallet_lowercase_or_null :: "profile \<Rightarrow> bool" where
  "wallet_lowercase_or_null p =
     (case wallet_address p of None \<Rightarrow> True | Some a \<Rightarrow> toLowerCase a = a)"

definition wallets_lowercase :: "store \<Rightarrow> bool" where
  "wallets_lowercase s \<longleftrightarrow> list_all wallet_lowercase_or_null (profiles s)"

section \<open>Example data\<close>

text \<open>
  A store with one judiciary profile whose key and identity coincide, the session of that
  judge, and two people to register. The first address is the one of the spec's scenario.
\<close>

definition judge :: profile where
  "judge = \<lparr>id_profile = 1, user_id = 1, email = ''judge@court.in'', full_name = ''Judge'',
            role_category = Judiciary, phone = None, wallet_address = None,
            is_wallet_verified = False, wallet_verified_at = None\<rparr>"

definition court_store :: store where
  "court_store = \<lparr>profiles = [judge], wallet_audit_log = [], auth_users = [1],
                  auth_admin_calls = []\<rparr>"

definition judge_session :: env where
  "judge_session = \<lparr>currentAuthUser = Some 1, now = 100, createUser_result = Inr 7,
                    deleteUser_error = None, gen_random_uuid = 2,
                    profiles_write_error = None, audit_insert_error = None\<rparr>"

definition alice :: UserRegistration where
  "alice = \<lparr>email_reg = ''a@x.com'', fullName = ''Alice'',
            walletAddress = ''0xABCDEF0123456789ABCDEF0123456789ABCDEF01'',
            roleCategory = Lawyer, phone_reg = None\<rparr>"

definition bob :: UserRegistration where
  "bob = \<lparr>email_reg = ''b@x.com'', fullName = ''Bob'',
          walletAddress = ''0x1111111111111111111111111111111111111111'',
          roleCategory = Clerk, phone_reg = None\<rparr>"

definition alice_form :: registerForm where
  "alice_form = \<lparr>email_form = ''a@x.com'', fullName_form = ''Alice'',
                 walletAddress_form = ''0xABCDEF0123456789ABCDEF0123456789ABCDEF01'',
                 roleCategory_form = Lawyer, phone_form = []\<rparr>"

text \<open>The store once the judge has registered Alice: her profile has key 2 and identity 7.\<close>

definition alice_profile :: profile where
  "alice_profile = \<lparr>id_profile = 2, user_id = 7, email = ''a@x.com'', full_name = ''Alice'',
            role_category = Lawyer, phone = None,
            wallet_address = Some ''0xabcdef0123456789abcdef0123456789abcdef01'',
            is_wallet_verified = True, wallet_verified_at = Some 100\<rparr>"

definition court_with_alice :: store where
  "court_with_alice =
     \<lparr>profiles = [judge, alice_profile],
      wallet_audit_log = [\<lparr>profile_id = 2, action = ''wallet_added'', old_value = None,
                           new_value = Some ''0xabcdef0123456789abcdef0123456789abcdef01'',
                           changed_by = Some 1, changed_at = 100\<rparr>],
      auth_users = [1, 7],
      auth_admin_calls = [CreateUser ''a@x.com'']\<rparr>"

text \<open>Runs and forms used as concrete instances below.\<close>

definition two_registrations :: "call list" where
  "two_registrations =
     [Register judge_session alice,
      Register (judge_session\<lparr>createUser_result := Inr 8, gen_random_uuid := 3\<rparr>) bob]"

definition register_then_unverify :: "call list" where
  "register_then_unverify = [Register judge_session alice, VerifyWallet judge_session 2 False]"

definition malformed_form :: registerForm where
  "malformed_form = alice_form\<lparr>walletAddress_form := ''0xABCDEF''\<rparr>"

definition malformed_update :: updateForm where
  "malformed_update = \<lparr>profileId_form = Some 2, newWalletAddress_form = ''abcdef0123456789abcdef0123456789abcdef0123'',
                       reason_form = []\<rparr>"

text \<open>Sessions of the judge in which one write fails for a reason of the infrastructure.\<close>

definition faulty_insert_session :: env where
  "faulty_insert_session = judge_session\<lparr>profiles_write_error := Some ''connection lost''\<rparr>"

definition faulty_audit_session :: env where
  "faulty_audit_session = judge_session\<lparr>audit_insert_error := Some ''timeout''\<rparr>"

text \<open>
  Carol, a lawyer whose key and identity coincide, with her own session; the session of a
  caller who is not signed in; a store in which the
  judge's identity is the key of Carol's profile and the other way round; and two requests to
  rebind Alice's wallet, to a new address and to the address she already has.
\<close>

definition carol_profile :: profile where
  "carol_profile = \<lparr>id_profile = 3, user_id = 3, email = ''c@x.com'', full_name = ''Carol'',
            role_category = Lawyer, phone = None,
            wallet_address = Some ''0x2222222222222222222222222222222222222222'',
            is_wallet_verified = False, wallet_verified_at = None\<rparr>"

definition court_with_carol :: store where
  "court_with_carol = \<lparr>profiles = [judge, carol_profile], wallet_audit_log = [],
                        auth_users = [1, 3], auth_admin_calls = []\<rparr>"

definition carol_session :: env where
  "carol_session = judge_session\<lparr>currentAuthUser := Some 3\<rparr>"

definition anonymous_session :: env where
  "anonymous_session = judge_session\<lparr>currentAuthUser := None\<rparr>"

definition crossed_store :: store where
  "crossed_store =
     \<lparr>profiles = [judge\<lparr>user_id := 2\<rparr>,
                   carol_profile\<lparr>id_profile := 2, user_id := 1\<rparr>],
      wallet_audit_log = [], auth_users = [1, 2], auth_admin_calls = []\<rparr>"

definition crossed_session :: env where
  "crossed_session = judge_session\<lparr>currentAuthUser := Some 2, gen_random_uuid := 3\<rparr>"

definition rebind_alice :: WalletUpdateRequest where
  "rebind_alice = \<lparr>profileId_req = 2,
                    newWalletAddress = ''0x1111111111111111111111111111111111111111'',
                    reason = ''lost key''\<rparr>"

definition rebind_alice_same :: WalletUpdateRequest where
  "rebind_alice_same = \<lparr>profileId_req = 2,
                    newWalletAddress = ''0xABCDEF0123456789ABCDEF0123456789ABCDEF01'',
                    reason = ''retry''\<rparr>"

text \<open>A store in which the judge's identity, 10, is the key of no profile.\<close>

definition remote_store :: store where
  "remote_store = \<lparr>profiles = [judge\<lparr>user_id := 10\<rparr>], wallet_audit_log = [],
                    auth_users = [10], auth_admin_calls = []\<rparr>"

definition remote_session :: env where
  "remote_session = judge_session\<lparr>currentAuthUser := Some 10\<rparr>"





definition unchecked_store :: store where
  "unchecked_store =
     snd (adminRegisterUserWithWallet judge_session (alice\<lparr>walletAddress := ''Not-A-Wallet''\<rparr>) court_store)"

definition rebind_alice_malformed :: WalletUpdateRequest where
  "rebind_alice_malformed = \<lparr>profileId_req = 2, newWalletAddress = ''zzz'', reason = []\<rparr>"

definition unchecked_registration :: "call list" where
  "unchecked_registration = [Register judge_session (alice\<lparr>walletAddress := ''Not-A-Wallet''\<rparr>)]"

section \<open>Facts about text\<close>

lemma lower_char_idem: "lower_char (lower_char c) = lower_char c"
  by (simp add: lower_char_def is_upper_ascii_def)

lemma lower_char_not_upper: "\<not> is_upper_ascii (lower_char c)"
  by (simp add: lower_char_def is_upper_ascii_def)

lemma toLowerCase_idem: "toLowerCase (toLowerCase w) = toLowerCase w"
  by (simp add: toLowerCase_def lower_char_idem)

lemma toLowerCase_no_upper: "list_all (\<lambda>c. \<not> is_upper_ascii c) (toLowerCase w)"
  by (simp add: toLowerCase_def list_all_iff lower_char_not_upper)

lemma lower_char_values:
  "lower_char CHR ''A'' = CHR ''a''" "lower_char CHR ''B'' = CHR ''b''"
  "lower_char CHR ''C'' = CHR ''c''" "lower_char CHR ''D'' = CHR ''d''"
  "lower_char CHR ''E'' = CHR ''e''" "lower_char CHR ''F'' = CHR ''f''"
  "lower_char CHR ''a'' = CHR ''a''" "lower_char CHR ''b'' = CHR ''b''"
  "lower_char CHR ''c'' = CHR ''c''" "lower_char CHR ''d'' = CHR ''d''"
  "lower_char CHR ''e'' = CHR ''e''" "lower_char CHR ''f'' = CHR ''f''"
  "lower_char CHR ''0'' = CHR ''0''" "lower_char CHR ''1'' = CHR ''1''"
  "lower_char CHR ''2'' = CHR ''2''" "lower_char CHR ''3'' = CHR ''3''"
  "lower_char CHR ''4'' = CHR ''4''" "lower_char CHR ''5'' = CHR ''5''"
  "lower_char CHR ''6'' = CHR ''6''" "lower_char CHR ''7'' = CHR ''7''"
  "lower_char CHR ''8'' = CHR ''8''" "lower_char CHR ''9'' = CHR ''9''"
  "lower_char CHR ''x'' = CHR ''x''"
  by code_simp+

lemma lower_hex_fixed: "lower_hex c \<Longrightarrow> lower_char c = c"
  unfolding lower_hex_def by (auto simp: lower_char_values)

lemma lower_char_hex: "hex_class c \<Longrightarrow> lower_hex (lower_char c)"
  unfolding hex_class_def lower_hex_def by (auto simp: lower_char_values)

lemma lower_hex_hex_class: "lower_hex c \<Longrightarrow> hex_class c"
  unfolding lower_hex_def hex_class_def by auto

lemma matches_wallet_regex_iff:
  "matches_wallet_regex w \<longleftrightarrow> (\<exists>ds. w = ''0x'' @ ds \<and> length ds = 40 \<and> list_all hex_class ds)"
  by (auto simp: matches_wallet_regex_def split: list.splits)

lemma canonical_wallet_iff:
  "canonical_wallet w \<longleftrightarrow> (\<exists>ds. w = ''0x'' @ ds \<and> length ds = 40 \<and> list_all lower_hex ds)"
proof
  assume c: "canonical_wallet w"
  then have "w = take 2 w @ drop 2 w" by simp
  with c have "w = ''0x'' @ drop 2 w" by (simp add: canonical_wallet_def)
  moreover from c have "length (drop 2 w) = 40" "list_all lower_hex (drop 2 w)"
    by (simp_all add: canonical_wallet_def)
  ultimately show "\<exists>ds. w = ''0x'' @ ds \<and> length ds = 40 \<and> list_all lower_hex ds" by blast
next
  assume "\<exists>ds. w = ''0x'' @ ds \<and> length ds = 40 \<and> list_all lower_hex ds"
  then show "canonical_wallet w" by (auto simp: canonical_wallet_def)
qed

lemma toLowerCase_canonical:
  assumes "matches_wallet_regex w" shows "canonical_wallet (toLowerCase w)"
proof -
  from assms obtain ds where w: "w = ''0x'' @ ds" "length ds = 40" "list_all hex_class ds"
    by (auto simp: matches_wallet_regex_iff)
  have "list_all lower_hex (map lower_char ds)"
    using w(3) by (simp add: list_all_iff lower_char_hex)
  moreover have "toLowerCase w = ''0x'' @ map lower_char ds"
    by (simp add: w(1) toLowerCase_def lower_char_values)
  ultimately show ?thesis
    using w(2) by (auto simp: canonical_wallet_iff)
qed

lemma canonical_fixed:
  assumes "canonical_wallet w" shows "toLowerCase w = w"
proof -
  from assms obtain ds where w: "w = ''0x'' @ ds" "list_all lower_hex ds"
    by (auto simp: canonical_wallet_iff)
  have "map lower_char ds = ds"
    using w(2) by (simp add: list_all_iff lower_hex_fixed map_idI)
  then show ?thesis by (simp add: w(1) toLowerCase_def lower_char_values)
qed

lemma canonical_matches:
  assumes "canonical_wallet w" shows "matches_wallet_regex w"
proof -
  from assms obtain ds where w: "w = ''0x'' @ ds" "length ds = 40" "list_all lower_hex ds"
    by (auto simp: canonical_wallet_iff)
  from w(3) have "list_all hex_class ds" by (simp add: list_all_iff lower_hex_hex_class)
  with w(1,2) show ?thesis by (auto simp: matches_wallet_regex_iff)
qed

section \<open>Facts about the operations\<close>

lemma insert_profile_Inr:
  "insert_profile e row s = Inr s' \<Longrightarrow>
     s' = s\<lparr>profiles := profiles s @ [row]\<rparr> \<and> profiles_constraints_ok (profiles s @ [row])"
  by (auto simp: insert_profile_def split: option.splits if_splits)

lemma update_profiles_Inr:
  "update_profiles e pid upd s = Inr s' \<Longrightarrow>
     profiles s' = map (\<lambda>p. if id_profile p = pid then upd p else p) (profiles s) \<and>
     distinct (stored_wallets (profiles s')) \<and>
     auth_users s' = auth_users s \<and> auth_admin_calls s' = auth_admin_calls s"
  by (auto simp: update_profiles_def Let_def split: option.splits if_splits)

lemma insert_audit_Inr:
  "insert_audit e a s = Inr s' \<Longrightarrow> s' = s\<lparr>wallet_audit_log := wallet_audit_log s @ [a]\<rparr>"
  by (auto simp: insert_audit_def split: option.splits if_splits)

lemma insert_audit_profiles:
  "profiles (case insert_audit e a s of Inl msg \<Rightarrow> s | Inr s' \<Rightarrow> s') = profiles s"
  by (auto simp: insert_audit_def split: option.splits if_splits)

lemma deleteUser_profiles: "profiles (deleteUser e u s) = profiles s"
  by (simp add: deleteUser_def split: option.splits)

lemma register_profiles:
  "profiles (snd (adminRegisterUserWithWallet e reg s)) = profiles s \<or>
   (\<exists>u. profiles (snd (adminRegisterUserWithWallet e reg s)) = profiles s @ [registration_row e reg u]
        \<and> profiles_constraints_ok (profiles s @ [registration_row e reg u])
        \<and> maybeSingle (filter (\<lambda>p. email p = email_reg reg) (profiles s)) = None)"
  unfolding adminRegisterUserWithWallet_def Let_def
  by (auto simp: insert_audit_profiles deleteUser_profiles
           split: option.splits sum.splits dest!: insert_profile_Inr)

lemma updateWallet_profiles:
  "profiles (snd (adminUpdateUserWallet e req s)) = profiles s \<or>
   (profiles (snd (adminUpdateUserWallet e req s)) =
      map (\<lambda>p. if id_profile p = profileId_req req
                then p\<lparr>wallet_address := Some (toLowerCase (newWalletAddress req)),
                        is_wallet_verified := True, wallet_verified_at := Some (now e)\<rparr>
                else p) (profiles s)
    \<and> distinct (stored_wallets (profiles (snd (adminUpdateUserWallet e req s)))))"
  unfolding adminUpdateUserWallet_def Let_def
  by (auto simp: insert_audit_profiles split: option.splits sum.splits dest!: update_profiles_Inr)

lemma verifyWallet_profiles:
  "profiles (snd (adminVerifyWallet e pid v s)) = profiles s \<or>
   (profiles (snd (adminVerifyWallet e pid v s)) =
      map (\<lambda>p. if id_profile p = pid
                then p\<lparr>is_wallet_verified := v,
                        wallet_verified_at := (if v then Some (now e) else None)\<rparr>
                else p) (profiles s)
    \<and> distinct (stored_wallets (profiles (snd (adminVerifyWallet e pid v s)))))"
  unfolding adminVerifyWallet_def
  by (auto split: sum.splits dest!: update_profiles_Inr)

lemma handleRegisterUser_calls:
  "snd (handleRegisterUser e form s) = s \<or>
   (matches_wallet_regex (walletAddress_form form) \<and>
    (\<exists>reg. walletAddress reg = walletAddress_form form \<and>
           snd (handleRegisterUser e form s) = snd (adminRegisterUserWithWallet e reg s)))"
  unfolding handleRegisterUser_def
  by (auto split: prod.splits) (metis UserRegistration.select_convs(3) snd_conv)+

lemma handleUpdateWallet_calls:
  "snd (handleUpdateWallet e form s) = s \<or>
   (matches_wallet_regex (newWalletAddress_form form) \<and>
    (\<exists>req. newWalletAddress req = newWalletAddress_form form \<and>
           snd (handleUpdateWallet e form s) = snd (adminUpdateUserWallet e req s)))"
  unfolding handleUpdateWallet_def
  by (auto split: prod.splits option.splits) (metis WalletUpdateRequest.select_convs(2) snd_conv)+

subsection \<open>The verification stamp\<close>

lemma registration_row_stamped: "verified_iff_stamped (registration_row e reg u)"
  by (simp add: verified_iff_stamped_def registration_row_def)

lemma register_stamped:
  "list_all verified_iff_stamped (profiles s) \<Longrightarrow>
   list_all verified_iff_stamped (profiles (snd (adminRegisterUserWithWallet e reg s)))"
  using register_profiles [of e reg s] by (auto simp: registration_row_stamped)

lemma updateWallet_stamped:
  "list_all verified_iff_stamped (profiles s) \<Longrightarrow>
   list_all verified_iff_stamped (profiles (snd (adminUpdateUserWallet e req s)))"
  using updateWallet_profiles [of e req s]
  by (auto simp: list_all_iff verified_iff_stamped_def)

lemma verifyWallet_stamped:
  "list_all verified_iff_stamped (profiles s) \<Longrightarrow>
   list_all verified_iff_stamped (profiles (snd (adminVerifyWallet e pid v s)))"
  using verifyWallet_profiles [of e pid v s]
  by (auto simp: list_all_iff verified_iff_stamped_def split: if_splits)

lemma step_stamped:
  "list_all verified_iff_stamped (profiles s) \<Longrightarrow> list_all verified_iff_stamped (profiles (step c s))"
proof (cases c)
  case (FormRegister e form)
  then show "list_all verified_iff_stamped (profiles s) \<Longrightarrow> ?thesis"
    using handleRegisterUser_calls [of e form s] by (auto simp: register_stamped)
next
  case (FormUpdate e form)
  then show "list_all verified_iff_stamped (profiles s) \<Longrightarrow> ?thesis"
    using handleUpdateWallet_calls [of e form s] by (auto simp: updateWallet_stamped)
qed (simp_all add: register_stamped updateWallet_stamped verifyWallet_stamped)

lemma run_snoc: "run (cs @ [c]) s = step c (run cs s)"
  by (simp add: run_def)

lemma run_stamped:
  "list_all verified_iff_stamped (profiles s) \<Longrightarrow> list_all verified_iff_stamped (profiles (run cs s))"
  by (induction cs rule: rev_induct) (simp_all add: run_snoc step_stamped, simp add: run_def)

subsection \<open>Uniqueness\<close>

lemma filter_eq_distinct_le1:
  "distinct (map f xs) \<Longrightarrow> length (filter (\<lambda>p. f p = v) xs) \<le> 1"
  by (induction xs) (auto simp: filter_empty_conv image_iff)

lemma maybeSingle_None_absent:
  assumes "distinct (map f xs)" "maybeSingle (filter (\<lambda>p. f p = v) xs) = None"
  shows "v \<notin> f ` set xs"
proof
  assume "v \<in> f ` set xs"
  then have "filter (\<lambda>p. f p = v) xs \<noteq> []" by (auto simp: filter_empty_conv)
  moreover have "length (filter (\<lambda>p. f p = v) xs) \<le> 1"
    using assms(1) by (rule filter_eq_distinct_le1)
  ultimately obtain r where "filter (\<lambda>p. f p = v) xs = [r]"
    by (cases "filter (\<lambda>p. f p = v) xs") auto
  with assms(2) show False by (simp add: maybeSingle_def)
qed

lemma register_unique:
  assumes "wallets_unique s" "emails_unique s"
  shows "wallets_unique (snd (adminRegisterUserWithWallet e reg s)) \<and>
         emails_unique (snd (adminRegisterUserWithWallet e reg s))"
proof -
  let ?s' = "snd (adminRegisterUserWithWallet e reg s)"
  from register_profiles [of e reg s]
  consider (same) "profiles ?s' = profiles s"
    | (added) u where "profiles ?s' = profiles s @ [registration_row e reg u]"
        "profiles_constraints_ok (profiles s @ [registration_row e reg u])"
        "maybeSingle (filter (\<lambda>p. email p = email_reg reg) (profiles s)) = None"
    by blast
  then show ?thesis
  proof cases
    case same
    with assms show ?thesis by (simp add: wallets_unique_def emails_unique_def)
  next
    case added
    from assms(2) have "distinct (map email (profiles s))" by (simp add: emails_unique_def)
    from maybeSingle_None_absent [OF this added(3)]
    have "email_reg reg \<notin> email ` set (profiles s)" .
    with added(1,2) assms(2) show ?thesis
      by (simp add: wallets_unique_def emails_unique_def profiles_constraints_ok_def
            registration_row_def)
  qed
qed

lemma map_email_guarded:
  "(\<And>p. email (g p) = email p) \<Longrightarrow>
   map email (map (\<lambda>p. if c p then g p else p) ps) = map email ps"
  by (induction ps) auto

lemma updateWallet_unique:
  assumes "wallets_unique s" "emails_unique s"
  shows "wallets_unique (snd (adminUpdateUserWallet e req s)) \<and>
         emails_unique (snd (adminUpdateUserWallet e req s))"
proof -
  let ?s' = "snd (adminUpdateUserWallet e req s)"
  from updateWallet_profiles [of e req s]
  consider "profiles ?s' = profiles s"
    | "map email (profiles ?s') = map email (profiles s)" "distinct (stored_wallets (profiles ?s'))"
    by (auto simp: map_email_guarded simp del: map_map)
  then show ?thesis
    using assms by cases (simp_all add: wallets_unique_def emails_unique_def)
qed

lemma verifyWallet_unique:
  assumes "wallets_unique s" "emails_unique s"
  shows "wallets_unique (snd (adminVerifyWallet e pid v s)) \<and>
         emails_unique (snd (adminVerifyWallet e pid v s))"
proof -
  let ?s' = "snd (adminVerifyWallet e pid v s)"
  from verifyWallet_profiles [of e pid v s]
  consider "profiles ?s' = profiles s"
    | "map email (profiles ?s') = map email (profiles s)" "distinct (stored_wallets (profiles ?s'))"
    by (auto simp: map_email_guarded simp del: map_map)
  then show ?thesis
    using assms by cases (simp_all add: wallets_unique_def emails_unique_def)
qed

lemma step_unique:
  assumes "wallets_unique s" "emails_unique s"
  shows "wallets_unique (step c s) \<and> emails_unique (step c s)"
proof (cases c)
  case (Register e reg)
  then show ?thesis using register_unique [OF assms] by simp
next
  case (UpdateWallet e req)
  then show ?thesis using updateWallet_unique [OF assms] by simp
next
  case (VerifyWallet e pid v)
  then show ?thesis using verifyWallet_unique [OF assms] by simp
next
  case (FormRegister e form)
  then show ?thesis
    using handleRegisterUser_calls [of e form s] register_unique [OF assms] assms by auto
next
  case (FormUpdate e form)
  then show ?thesis
    using handleUpdateWallet_calls [of e form s] updateWallet_unique [OF assms] assms by auto
qed

lemma run_unique:
  "wallets_unique s \<Longrightarrow> emails_unique s \<Longrightarrow>
   wallets_unique (run cs s) \<and> emails_unique (run cs s)"
proof (induction cs rule: rev_induct)
  case Nil
  then show ?case by (simp add: run_def)
next
  case (snoc c cs)
  then show ?case by (simp add: run_snoc step_unique)
qed

lemma set_map_filter: "set (List.map_filter f xs) = {w. \<exists>x\<in>set xs. f x = Some w}"
  by (induction xs) (auto simp: List.map_filter_simps split: option.splits)

lemma distinct_map_filter_nth:
  "distinct (List.map_filter f xs) \<Longrightarrow> i < j \<Longrightarrow> j < length xs \<Longrightarrow>
   f (xs ! i) = Some w \<Longrightarrow> f (xs ! j) \<noteq> Some w"
proof (induction xs arbitrary: i j)
  case Nil
  then show ?case by simp
next
  case (Cons x xs)
  obtain j' where j: "j = Suc j'" using Cons.prems(2) by (cases j) auto
  show ?case
  proof (cases i)
    case 0
    with Cons.prems have "w \<notin> set (List.map_filter f xs)"
      by (simp add: List.map_filter_simps)
    moreover have "xs ! j' \<in> set xs" using Cons.prems(3) j by simp
    ultimately show ?thesis using j by (auto simp: set_map_filter)
  next
    case (Suc i')
    have "distinct (List.map_filter f xs)"
      using Cons.prems(1) by (simp add: List.map_filter_simps split: option.splits)
    from Cons.IH [OF this, of i' j'] Cons.prems Suc j show ?thesis by simp
  qed
qed

lemma distinct_map_filter_pair:
  assumes "distinct (List.map_filter f xs)" "i < length xs" "j < length xs" "i \<noteq> j"
    "f (xs ! i) = Some w"
  shows "f (xs ! j) \<noteq> Some w"
proof (cases "i < j")
  case True
  with assms show ?thesis by (simp add: distinct_map_filter_nth)
next
  case False
  with assms have "j < i" by simp
  from distinct_map_filter_nth [OF assms(1) this assms(2)] assms(5) show ?thesis by auto
qed

subsection \<open>The canonical form\<close>

lemma register_canonical:
  assumes "wallets_canonical s" "matches_wallet_regex (walletAddress reg)"
  shows "wallets_canonical (snd (adminRegisterUserWithWallet e reg s))"
  using register_profiles [of e reg s] assms
  by (auto simp: wallets_canonical_def wallet_canonical_or_null_def registration_row_def
           toLowerCase_canonical)

lemma updateWallet_canonical:
  assumes "wallets_canonical s" "matches_wallet_regex (newWalletAddress req)"
  shows "wallets_canonical (snd (adminUpdateUserWallet e req s))"
  using updateWallet_profiles [of e req s] assms
  by (auto simp: wallets_canonical_def wallet_canonical_or_null_def list_all_iff
           toLowerCase_canonical)

lemma verifyWallet_canonical:
  assumes "wallets_canonical s"
  shows "wallets_canonical (snd (adminVerifyWallet e pid v s))"
  using verifyWallet_profiles [of e pid v s] assms
  by (auto simp: wallets_canonical_def wallet_canonical_or_null_def list_all_iff)

lemma step_canonical:
  assumes "wallets_canonical s" "through_console c"
  shows "wallets_canonical (step c s)"
proof (cases c)
  case (FormRegister e form)
  then show ?thesis
    using handleRegisterUser_calls [of e form s] assms(1) by (auto simp: register_canonical)
next
  case (FormUpdate e form)
  then show ?thesis
    using handleUpdateWallet_calls [of e form s] assms(1) by (auto simp: updateWallet_canonical)
qed (use assms in \<open>simp_all add: verifyWallet_canonical\<close>)

lemma run_canonical:
  "wallets_canonical s \<Longrightarrow> list_all through_console cs \<Longrightarrow> wallets_canonical (run cs s)"
proof (induction cs rule: rev_induct)
  case Nil
  then show ?case by (simp add: run_def)
next
  case (snoc c cs)
  then show ?case by (simp add: run_snoc step_canonical)
qed

subsection \<open>Lower-cased storage\<close>

lemma canonical_store_lowercase: "wallets_canonical s \<Longrightarrow> wallets_lowercase s"
  by (auto simp: wallets_canonical_def wallets_lowercase_def list_all_iff
        wallet_canonical_or_null_def wallet_lowercase_or_null_def canonical_fixed
        split: option.splits)

lemma register_lowercase:
  "wallets_lowercase s \<Longrightarrow> wallets_lowercase (snd (adminRegisterUserWithWallet e reg s))"
  using register_profiles [of e reg s]
  by (auto simp: wallets_lowercase_def wallet_lowercase_or_null_def registration_row_def
        toLowerCase_idem)

lemma updateWallet_lowercase:
  "wallets_lowercase s \<Longrightarrow> wallets_lowercase (snd (adminUpdateUserWallet e req s))"
  using updateWallet_profiles [of e req s]
  by (auto simp: wallets_lowercase_def wallet_lowercase_or_null_def list_all_iff toLowerCase_idem)

lemma verifyWallet_lowercase:
  "wallets_lowercase s \<Longrightarrow> wallets_lowercase (snd (adminVerifyWallet e pid v s))"
  using verifyWallet_profiles [of e pid v s]
  by (auto simp: wallets_lowercase_def wallet_lowercase_or_null_def list_all_iff)

lemma step_lowercase:
  assumes "wallets_lowercase s" shows "wallets_lowercase (step c s)"
proof (cases c)
  case (FormRegister e form)
  then show ?thesis
    using handleRegisterUser_calls [of e form s] assms by (auto simp: register_lowercase)
next
  case (FormUpdate e form)
  then show ?thesis
    using handleUpdateWallet_calls [of e form s] assms by (auto simp: updateWallet_lowercase)
qed (use assms in \<open>simp_all add: register_lowercase updateWallet_lowercase verifyWallet_lowercase\<close>)

lemma run_lowercase: "wallets_lowercase s \<Longrightarrow> wallets_lowercase (run cs s)"
proof (induction cs rule: rev_induct)
  case Nil
  then show ?case by (simp add: run_def)
next
  case (snoc c cs)
  then show ?case by (simp add: run_snoc step_lowercase)
qed



subsection \<open>The authorization query\<close>

lemma like_match_plain: "list_all plain_char p \<Longrightarrow> like_match p t \<longleftrightarrow> p = t"
  by (induction p t rule: like_match.induct) (auto simp: plain_char_def)


lemma lower_hex_plain: "lower_hex c \<Longrightarrow> plain_char c"
  unfolding lower_hex_def plain_char_def by auto

lemma canonical_plain:
  assumes "canonical_wallet w" shows "list_all plain_char w"
proof -
  from assms obtain ds where w: "w = ''0x'' @ ds" "list_all lower_hex ds"
    by (auto simp: canonical_wallet_iff)
  from w(2) have "list_all plain_char ds" by (simp add: list_all_iff lower_hex_plain)
  then show ?thesis by (simp add: w(1) plain_char_def)
qed

lemma ilike_canonical:
  assumes "canonical_wallet pat" "canonical_wallet txt"
  shows "ilike txt pat \<longleftrightarrow> txt = pat"
  using assms by (auto simp: ilike_def canonical_fixed like_match_plain canonical_plain)








subsection \<open>Registration\<close>

lemma insert_profile_auth_fields:
  "insert_profile e row (s\<lparr>auth_admin_calls := c, auth_users := a\<rparr>) = Inl msg
     \<longleftrightarrow> insert_profile e row s = Inl msg"
  by (auto simp: insert_profile_def split: option.splits)

lemma register_result_cases:
  "(profiles (snd (adminRegisterUserWithWallet e reg s)) = profiles s \<and>
    \<not> success (fst (adminRegisterUserWithWallet e reg s))) \<or>
   (profiles (snd (adminRegisterUserWithWallet e reg s)) \<noteq> profiles s \<and>
    fst (adminRegisterUserWithWallet e reg s)
      = \<lparr>success = True, profileId = Some (gen_random_uuid e), error = None\<rparr>)"
  unfolding adminRegisterUserWithWallet_def Let_def
  by (auto simp: insert_audit_profiles deleteUser_profiles failed_def
           split: option.splits sum.splits dest!: insert_profile_Inr)

lemma register_result_audit_free:
  "fst (adminRegisterUserWithWallet (e\<lparr>audit_insert_error := f\<rparr>) reg s)
     = fst (adminRegisterUserWithWallet e reg s)"
  unfolding adminRegisterUserWithWallet_def Let_def insert_profile_def registration_row_def
  by (auto split: option.splits sum.splits)

subsection \<open>The audit log\<close>

lemma concat_guarded:
  "concat (map (\<lambda>q. if P q then g q else []) xs) = concat (map g (filter P xs))"
  by (induction xs) auto

lemma update_profiles_log:
  "update_profiles e pid upd s = Inr s' \<Longrightarrow>
   wallet_audit_log s' = wallet_audit_log s @
     concat (map (\<lambda>p. log_wallet_change (currentAuthUser e) (now e) p (upd p))
               (filter (\<lambda>p. id_profile p = pid) (profiles s)))"
  by (auto simp: update_profiles_def Let_def concat_guarded split: option.splits if_splits)

lemma verify_toggle_logged_once:
  assumes "filter (\<lambda>q. id_profile q = pid) (profiles s) = [p]"
    and "success (fst (adminVerifyWallet e pid v s))"
  shows "wallet_audit_log (snd (adminVerifyWallet e pid v s)) = wallet_audit_log s @
     (if is_wallet_verified p = v then []
      else [\<lparr>profile_id = pid,
              action = (if v then ''wallet_verified'' else ''wallet_unverified''),
              old_value = Some (bool_text (is_wallet_verified p)),
              new_value = Some (bool_text v),
              changed_by = currentAuthUser e, changed_at = now e\<rparr>])"
proof -
  from assms(1) have "p \<in> set (filter (\<lambda>q. id_profile q = pid) (profiles s))" by simp
  then have pid: "id_profile p = pid" by simp
  from assms(2) obtain s' where u: "update_profiles e pid
      (\<lambda>p. p\<lparr>is_wallet_verified := v,
             wallet_verified_at := (if v then Some (now e) else None)\<rparr>) s = Inr s'"
    and r: "snd (adminVerifyWallet e pid v s) = s'"
    by (auto simp: adminVerifyWallet_def failed_def split: sum.splits)
  from update_profiles_log [OF u] assms(1) pid show ?thesis
    unfolding r by (simp add: log_wallet_change_def)
qed

subsection \<open>The example stores\<close>

lemma court_with_alice_reached:
  "adminRegisterUserWithWallet judge_session alice court_store
     = (\<lparr>success = True, profileId = Some 2, error = None\<rparr>, court_with_alice)"
  by code_simp

lemma court_store_unique: "wallets_unique court_store \<and> emails_unique court_store"
  by code_simp

section \<open>The claims\<close>




text \<open>
  Claim C2. From a store in which no two profiles share a non-null wallet address and no two
  share an email, every sequence of calls (the two services, the toggle and the two forms, with
  any arguments and any behaviour of the outside) keeps it so after each of its prefixes: two
  rows at different positions have different emails, and a wallet held by one is not held by
  the other.
\<close>

theorem uniqueness_at_every_point:
  assumes "wallets_unique s" "emails_unique s"
  shows "\<forall>i j. i < length (profiles (run (take k cs) s)) \<and>
               j < length (profiles (run (take k cs) s)) \<and> i \<noteq> j \<longrightarrow>
           email (profiles (run (take k cs) s) ! i) \<noteq> email (profiles (run (take k cs) s) ! j) \<and>
           (\<forall>w. wallet_address (profiles (run (take k cs) s) ! i) = Some w \<longrightarrow>
                wallet_address (profiles (run (take k cs) s) ! j) \<noteq> Some w)"
proof (intro allI impI)
  fix i j
  let ?ps = "profiles (run (take k cs) s)"
  assume ij: "i < length ?ps \<and> j < length ?ps \<and> i \<noteq> j"
  from run_unique [OF assms, of "take k cs"]
  have w: "distinct (List.map_filter wallet_address ?ps)" and e: "distinct (map email ?ps)"
    by (simp_all add: wallets_unique_def emails_unique_def stored_wallets_def)
  from e ij have "email (?ps ! i) \<noteq> email (?ps ! j)"
    by (simp add: distinct_conv_nth)
  moreover have "\<forall>w. wallet_address (?ps ! i) = Some w \<longrightarrow> wallet_address (?ps ! j) \<noteq> Some w"
    using distinct_map_filter_pair [OF w, of i j] ij by blast
  ultimately show "email (?ps ! i) \<noteq> email (?ps ! j) \<and>
           (\<forall>w. wallet_address (?ps ! i) = Some w \<longrightarrow> wallet_address (?ps ! j) \<noteq> Some w)"
    by blast
qed

theorem uniqueness_witness:
  "wallets_unique court_store \<and> emails_unique court_store \<and>
   length (profiles (run (take 2 two_registrations) court_store)) = 3 \<and>
   wallet_address (profiles (run (take 2 two_registrations) court_store) ! 1)
     = Some ''0xabcdef0123456789abcdef0123456789abcdef01'' \<and>
   wallet_address (profiles (run (take 2 two_registrations) court_store) ! 2)
     \<noteq> Some ''0xabcdef0123456789abcdef0123456789abcdef01'' \<and>
   email (profiles (run (take 2 two_registrations) court_store) ! 1)
     \<noteq> email (profiles (run (take 2 two_registrations) court_store) ! 2)"
proof -
  have u: "wallets_unique court_store" and e: "emails_unique court_store"
    using court_store_unique by simp_all
  have l: "length (profiles (run (take 2 two_registrations) court_store)) = 3"
    by code_simp
  have a: "wallet_address (profiles (run (take 2 two_registrations) court_store) ! 1)
     = Some ''0xabcdef0123456789abcdef0123456789abcdef01''"
    by code_simp
  from uniqueness_at_every_point [OF u e, of 2 two_registrations]
  have "1 < length (profiles (run (take 2 two_registrations) court_store)) \<and>
        2 < length (profiles (run (take 2 two_registrations) court_store)) \<and> (1::nat) \<noteq> 2 \<longrightarrow>
        email (profiles (run (take 2 two_registrations) court_store) ! 1)
          \<noteq> email (profiles (run (take 2 two_registrations) court_store) ! 2) \<and>
        (\<forall>w. wallet_address (profiles (run (take 2 two_registrations) court_store) ! 1) = Some w \<longrightarrow>
             wallet_address (profiles (run (take 2 two_registrations) court_store) ! 2) \<noteq> Some w)"
    by blast
  with l a have "wallet_address (profiles (run (take 2 two_registrations) court_store) ! 2)
     \<noteq> Some ''0xabcdef0123456789abcdef0123456789abcdef01'' \<and>
   email (profiles (run (take 2 two_registrations) court_store) ! 1)
     \<noteq> email (profiles (run (take 2 two_registrations) court_store) ! 2)"
    by simp
  with u e l a show ?thesis by blast
qed

text \<open>
  Claim C3 asks for exactly one audit row for each accepted change. Evaluated on the store
  with Alice: the judge rebinds her wallet to a new address and the log gains two
  \<open>wallet_changed\<close> rows, one from the trigger \<open>log_wallet_change\<close> and one from the
  explicit insert of \<open>adminUpdateUserWallet\<close>; the judge rebinds her wallet to the address
  she already has and the log gains one \<open>wallet_changed\<close> row although nothing changed.
\<close>

theorem rebind_logged_twice:
  "adminUpdateUserWallet judge_session rebind_alice court_with_alice =
     (\<lparr>success = True, profileId = None, error = None\<rparr>,
      court_with_alice
        \<lparr>profiles := [judge, alice_profile\<lparr>wallet_address := Some ''0x1111111111111111111111111111111111111111''\<rparr>],
         wallet_audit_log := wallet_audit_log court_with_alice @
           [\<lparr>profile_id = 2, action = ''wallet_changed'',
              old_value = Some ''0xabcdef0123456789abcdef0123456789abcdef01'',
              new_value = Some ''0x1111111111111111111111111111111111111111'',
              changed_by = Some 1, changed_at = 100\<rparr>,
            \<lparr>profile_id = 2, action = ''wallet_changed'',
              old_value = Some ''0xabcdef0123456789abcdef0123456789abcdef01'',
              new_value = Some ''0x1111111111111111111111111111111111111111'',
              changed_by = Some 1, changed_at = 100\<rparr>]\<rparr>)
   \<and> adminUpdateUserWallet judge_session rebind_alice_same court_with_alice =
     (\<lparr>success = True, profileId = None, error = None\<rparr>,
      court_with_alice
        \<lparr>wallet_audit_log := wallet_audit_log court_with_alice @
           [\<lparr>profile_id = 2, action = ''wallet_changed'',
              old_value = Some ''0xabcdef0123456789abcdef0123456789abcdef01'',
              new_value = Some ''0xabcdef0123456789abcdef0123456789abcdef01'',
              changed_by = Some 1, changed_at = 100\<rparr>]\<rparr>)"
  by code_simp

text \<open>
  Claim C4 asks \<open>setVerified\<close> to refuse a caller who is neither admin nor judiciary and to
  report an unknown profile. Evaluated: Carol, a lawyer, verifies her own wallet and the
  service reports success and stores the change; the judge toggles the profile 99, which does
  not exist, and the service reports success; a caller who is not signed in unverifies Alice's
  wallet and the service reports success and stores the change.
\<close>

theorem verify_unchecked:
  "adminVerifyWallet carol_session 3 True court_with_carol =
     (\<lparr>success = True, profileId = None, error = None\<rparr>,
      court_with_carol
        \<lparr>profiles := [judge, carol_profile\<lparr>is_wallet_verified := True, wallet_verified_at := Some 100\<rparr>],
         wallet_audit_log := [\<lparr>profile_id = 3, action = ''wallet_verified'',
              old_value = Some ''false'', new_value = Some ''true'',
              changed_by = Some 3, changed_at = 100\<rparr>]\<rparr>)
   \<and> caller_role court_with_carol 3 = Some Lawyer
   \<and> adminVerifyWallet judge_session 99 True court_with_carol =
     (\<lparr>success = True, profileId = None, error = None\<rparr>, court_with_carol)
   \<and> filter (\<lambda>p. id_profile p = 99) (profiles court_with_carol) = []
   \<and> adminVerifyWallet anonymous_session 2 False court_with_alice =
     (\<lparr>success = True, profileId = None, error = None\<rparr>,
      court_with_alice
        \<lparr>profiles := [judge, alice_profile\<lparr>is_wallet_verified := False, wallet_verified_at := None\<rparr>],
         wallet_audit_log := wallet_audit_log court_with_alice @
           [\<lparr>profile_id = 2, action = ''wallet_unverified'',
              old_value = Some ''true'', new_value = Some ''false'',
              changed_by = None, changed_at = 100\<rparr>]\<rparr>)"
  by code_simp

text \<open>
  Claim C5. When a registration has passed its checks, the provider has created the identity
  \<open>u\<close> and the insertion of the profile row fails, the service returns the failure
  \<open>Failed to create profile\<close>, has issued \<open>deleteUser u\<close> right after \<open>createUser\<close>,
  and leaves the profiles and the audit log as they were: no row for \<open>u\<close> was created, and
  none refers to \<open>u\<close> when none did before. When the deletion itself does not fail, the
  provider no longer holds \<open>u\<close>.
\<close>

theorem registration_compensates:
  assumes "currentAuthUser e = Some uid" and "may_administer (caller_role s uid)"
    and "maybeSingle (filter (\<lambda>p. wallet_address p = Some (toLowerCase (walletAddress reg)))
                        (profiles s)) = None"
    and "maybeSingle (filter (\<lambda>p. email p = email_reg reg) (profiles s)) = None"
    and "createUser_result e = Inr u"
    and "insert_profile e (registration_row e reg u) s = Inl msg"
  shows "fst (adminRegisterUserWithWallet e reg s) = failed (''Failed to create profile: '' @ msg)
       \<and> auth_admin_calls (snd (adminRegisterUserWithWallet e reg s))
           = auth_admin_calls s @ [CreateUser (email_reg reg), DeleteUser u]
       \<and> profiles (snd (adminRegisterUserWithWallet e reg s)) = profiles s
       \<and> wallet_audit_log (snd (adminRegisterUserWithWallet e reg s)) = wallet_audit_log s
       \<and> (deleteUser_error e = None \<longrightarrow> u \<notin> set (auth_users (snd (adminRegisterUserWithWallet e reg s))))
       \<and> (u \<notin> user_id ` set (profiles s) \<longrightarrow>
            (\<forall>p\<in>set (profiles (snd (adminRegisterUserWithWallet e reg s))). user_id p \<noteq> u))"
proof -
  from assms(6) have "insert_profile e (registration_row e reg u)
      (s\<lparr>auth_admin_calls := auth_admin_calls s @ [CreateUser (email_reg reg)],
         auth_users := auth_users s @ [u]\<rparr>) = Inl msg"
    by (simp only: insert_profile_auth_fields)
  with assms(1-5) have r: "adminRegisterUserWithWallet e reg s =
    (failed (''Failed to create profile: '' @ msg),
     deleteUser e u (s\<lparr>auth_admin_calls := auth_admin_calls s @ [CreateUser (email_reg reg)],
         auth_users := auth_users s @ [u]\<rparr>))"
    by (simp add: adminRegisterUserWithWallet_def Let_def)
  show ?thesis
    unfolding r by (auto simp: deleteUser_def split: option.splits)
qed

theorem registration_compensates_witness:
  "fst (adminRegisterUserWithWallet faulty_insert_session alice court_store)
     = failed ''Failed to create profile: connection lost''
   \<and> auth_admin_calls (snd (adminRegisterUserWithWallet faulty_insert_session alice court_store))
       = [CreateUser ''a@x.com'', DeleteUser 7]
   \<and> profiles (snd (adminRegisterUserWithWallet faulty_insert_session alice court_store)) = [judge]
   \<and> 7 \<notin> set (auth_users (snd (adminRegisterUserWithWallet faulty_insert_session alice court_store)))
   \<and> user_id judge \<noteq> 7"
proof -
  have h1: "currentAuthUser faulty_insert_session = Some 1" by code_simp
  have h2: "may_administer (caller_role court_store 1)" by code_simp
  have h3: "maybeSingle (filter (\<lambda>p. wallet_address p = Some (toLowerCase (walletAddress alice)))
                        (profiles court_store)) = None" by code_simp
  have h4: "maybeSingle (filter (\<lambda>p. email p = email_reg alice) (profiles court_store)) = None"
    by code_simp
  have h5: "createUser_result faulty_insert_session = Inr 7" by code_simp
  have h6: "insert_profile faulty_insert_session (registration_row faulty_insert_session alice 7)
              court_store = Inl ''connection lost''" by code_simp
  have h7: "deleteUser_error faulty_insert_session = None" by code_simp
  have h8: "7 \<notin> user_id ` set (profiles court_store)" by code_simp
  have e: "email_reg alice = ''a@x.com''" "auth_admin_calls court_store = []"
    "profiles court_store = [judge]"
    by (simp_all add: alice_def court_store_def)
  from registration_compensates [OF h1 h2 h3 h4 h5 h6] h7 h8 e
  show ?thesis by simp
qed

text \<open>
  Claim C6. From a store in which every profile is verified exactly when it carries a
  verification time, every sequence of calls keeps that equivalence for every profile after
  each of its prefixes; a single call is the sequence of length one.
\<close>

theorem verified_iff_stamped_at_every_point:
  assumes "list_all verified_iff_stamped (profiles s)"
  shows "\<forall>p\<in>set (profiles (run (take k cs) s)).
           is_wallet_verified p \<longleftrightarrow> wallet_verified_at p \<noteq> None"
  using run_stamped [OF assms, of "take k cs"]
  by (simp add: list_all_iff verified_iff_stamped_def)

theorem verified_iff_stamped_witness:
  "list_all verified_iff_stamped (profiles court_store) \<and>
   alice_profile\<lparr>is_wallet_verified := False, wallet_verified_at := None\<rparr>
     \<in> set (profiles (run (take 2 register_then_unverify) court_store)) \<and>
   (is_wallet_verified (alice_profile\<lparr>is_wallet_verified := False, wallet_verified_at := None\<rparr>)
      \<longleftrightarrow> wallet_verified_at (alice_profile\<lparr>is_wallet_verified := False, wallet_verified_at := None\<rparr>) \<noteq> None)"
proof -
  have h: "list_all verified_iff_stamped (profiles court_store)"
    by code_simp
  have m: "alice_profile\<lparr>is_wallet_verified := False, wallet_verified_at := None\<rparr>
     \<in> set (profiles (run (take 2 register_then_unverify) court_store))"
    by code_simp
  from verified_iff_stamped_at_every_point [OF h, of 2 register_then_unverify] m h
  show ?thesis by blast
qed

text \<open>
  Claim C7, as amended. From a store whose non-null wallet addresses are canonical, every
  sequence of calls made through the console (the two forms and the toggle) keeps every
  non-null address canonical after each of its prefixes; a form whose address fails the
  format test leaves the store as it was and reports an error; and every sequence of calls
  whatsoever, the services called directly included, keeps every stored address equal to its
  own lower-casing.
\<close>

theorem canonical_at_every_point:
  assumes "wallets_canonical s" "list_all through_console cs"
  shows "(\<forall>p\<in>set (profiles (run (take k cs) s)).
            \<forall>w. wallet_address p = Some w \<longrightarrow> canonical_wallet w)
       \<and> (\<not> matches_wallet_regex (walletAddress_form rf) \<longrightarrow>
            snd (handleRegisterUser e rf t) = t \<and> fst (handleRegisterUser e rf t) \<noteq> Toast_success)
       \<and> (\<not> matches_wallet_regex (newWalletAddress_form uf) \<longrightarrow>
            snd (handleUpdateWallet e uf t) = t \<and> fst (handleUpdateWallet e uf t) \<noteq> Toast_success)
       \<and> (\<forall>p\<in>set (profiles (run (take k any) s)).
            \<forall>w. wallet_address p = Some w \<longrightarrow> toLowerCase w = w)"
proof -
  from assms(2) have "list_all through_console (take k cs)"
    by (auto simp: list_all_iff dest: in_set_takeD)
  from run_canonical [OF assms(1) this]
  have "\<forall>p\<in>set (profiles (run (take k cs) s)). \<forall>w. wallet_address p = Some w \<longrightarrow> canonical_wallet w"
    by (auto simp: wallets_canonical_def list_all_iff wallet_canonical_or_null_def)
  moreover have "\<not> matches_wallet_regex (walletAddress_form rf) \<longrightarrow>
            snd (handleRegisterUser e rf t) = t \<and> fst (handleRegisterUser e rf t) \<noteq> Toast_success"
    by (simp add: handleRegisterUser_def)
  moreover have "\<not> matches_wallet_regex (newWalletAddress_form uf) \<longrightarrow>
            snd (handleUpdateWallet e uf t) = t \<and> fst (handleUpdateWallet e uf t) \<noteq> Toast_success"
    by (simp add: handleUpdateWallet_def split: option.splits)
  moreover from run_lowercase [OF canonical_store_lowercase [OF assms(1)], of "take k any"]
  have "\<forall>p\<in>set (profiles (run (take k any) s)). \<forall>w. wallet_address p = Some w \<longrightarrow> toLowerCase w = w"
    by (auto simp: wallets_lowercase_def list_all_iff wallet_lowercase_or_null_def)
  ultimately show ?thesis by blast
qed

theorem canonical_witness:
  "wallets_canonical court_store \<and> list_all through_console [FormRegister judge_session alice_form] \<and>
   alice_profile \<in> set (profiles (run (take 1 [FormRegister judge_session alice_form]) court_store)) \<and>
   wallet_address alice_profile = Some ''0xabcdef0123456789abcdef0123456789abcdef01'' \<and>
   canonical_wallet ''0xabcdef0123456789abcdef0123456789abcdef01'' \<and>
   \<not> matches_wallet_regex (walletAddress_form malformed_form) \<and>
   snd (handleRegisterUser judge_session malformed_form court_with_alice) = court_with_alice \<and>
   \<not> matches_wallet_regex (newWalletAddress_form malformed_update) \<and>
   snd (handleUpdateWallet judge_session malformed_update court_with_alice) = court_with_alice \<and>
   alice_profile\<lparr>wallet_address := Some ''not-a-wallet''\<rparr>
     \<in> set (profiles (run (take 1 unchecked_registration) court_store)) \<and>
   toLowerCase ''not-a-wallet'' = ''not-a-wallet''"
proof -
  have h1: "wallets_canonical court_store" by code_simp
  have h2: "list_all through_console [FormRegister judge_session alice_form]" by simp
  have m: "alice_profile \<in> set (profiles (run (take 1 [FormRegister judge_session alice_form]) court_store))"
    by code_simp
  have w: "wallet_address alice_profile = Some ''0xabcdef0123456789abcdef0123456789abcdef01''"
    by (simp add: alice_profile_def)
  have r1: "\<not> matches_wallet_regex (walletAddress_form malformed_form)" by code_simp
  have r2: "\<not> matches_wallet_regex (newWalletAddress_form malformed_update)" by code_simp
  have u: "alice_profile\<lparr>wallet_address := Some ''not-a-wallet''\<rparr>
     \<in> set (profiles (run (take 1 unchecked_registration) court_store))"
    by code_simp
  have uw: "wallet_address (alice_profile\<lparr>wallet_address := Some ''not-a-wallet''\<rparr>)
              = Some ''not-a-wallet''"
    by simp
  from canonical_at_every_point [OF h1 h2, where k = 1 and rf = malformed_form
         and e = judge_session and t = court_with_alice and uf = malformed_update
         and any = unchecked_registration] m w r1 r2 h1 h2 u uw
  show ?thesis by blast
qed

text \<open>
  The claim as it stands fails for the services called directly, which lower-case and do not
  test the format: from canonical stores the judge registers a user with \<open>Not-A-Wallet\<close>
  and rebinds Alice's wallet to \<open>zzz\<close>; both calls succeed and both strings are stored.
\<close>

theorem services_store_unchecked:
  "wallets_canonical court_store
   \<and> \<not> matches_wallet_regex ''Not-A-Wallet''
   \<and> fst (adminRegisterUserWithWallet judge_session (alice\<lparr>walletAddress := ''Not-A-Wallet''\<rparr>)
           court_store)
       = \<lparr>success = True, profileId = Some 2, error = None\<rparr>
   \<and> map wallet_address (profiles unchecked_store) = [None, Some ''not-a-wallet'']
   \<and> \<not> canonical_wallet ''not-a-wallet''
   \<and> wallets_canonical court_with_alice
   \<and> \<not> matches_wallet_regex ''zzz''
   \<and> fst (adminUpdateUserWallet judge_session rebind_alice_malformed court_with_alice)
       = \<lparr>success = True, profileId = None, error = None\<rparr>
   \<and> map wallet_address
        (profiles (snd (adminUpdateUserWallet judge_session rebind_alice_malformed court_with_alice)))
       = [None, Some ''zzz'']
   \<and> \<not> canonical_wallet ''zzz''"
  by code_simp

text \<open>
  Claim C8 asks \<open>changed_by\<close> to be the key of the acting profile. Evaluated on the store
  where the judge has key 1 and identity 2 while key 2 is Carol's: the judge registers Alice
  and the audit row carries \<open>changed_by = 2\<close>, the judge's identity, which as a profile key
  names Carol, a lawyer. On the store where the judge has key 1 and identity 10, which is no
  profile's key, the registration succeeds and the foreign key refuses the audit row.
\<close>

theorem changed_by_is_auth_identity:
  "caller_role crossed_store 2 = Some Judiciary
   \<and> map id_profile (filter (\<lambda>p. user_id p = 2) (profiles crossed_store)) = [1]
   \<and> fst (adminRegisterUserWithWallet crossed_session alice crossed_store)
       = \<lparr>success = True, profileId = Some 3, error = None\<rparr>
   \<and> wallet_audit_log (snd (adminRegisterUserWithWallet crossed_session alice crossed_store))
       = [\<lparr>profile_id = 3, action = ''wallet_added'', old_value = None,
           new_value = Some ''0xabcdef0123456789abcdef0123456789abcdef01'',
           changed_by = Some 2, changed_at = 100\<rparr>]
   \<and> map role_category (filter (\<lambda>p. id_profile p = 2) (profiles crossed_store)) = [Lawyer]
   \<and> fst (adminRegisterUserWithWallet remote_session alice remote_store)
       = \<lparr>success = True, profileId = Some 2, error = None\<rparr>
   \<and> wallet_audit_log (snd (adminRegisterUserWithWallet remote_session alice remote_store)) = []"
  by code_simp

text \<open>
  Claim C9. Normalising twice is normalising once, for every input string; the output of the
  lower-casing has no upper-case letter; an accepted address is stored as its lower-cased
  form, which is canonical and a fixed point; and the strings rejected are exactly those that
  are not \<open>0x\<close> followed by forty hexadecimal digits.
\<close>

theorem normalizeWallet_idempotent_lowercase_strict:
  "Option.bind (normalizeWallet w) normalizeWallet = normalizeWallet w
   \<and> toLowerCase (toLowerCase w) = toLowerCase w
   \<and> list_all (\<lambda>c. \<not> is_upper_ascii c) (toLowerCase w)
   \<and> (\<forall>v. normalizeWallet w = Some v \<longrightarrow> v = toLowerCase w \<and> canonical_wallet v \<and> normalizeWallet v = Some v)
   \<and> (normalizeWallet w = None \<longleftrightarrow>
        \<not> (\<exists>ds. w = ''0x'' @ ds \<and> length ds = 40 \<and> list_all hex_class ds))"
proof -
  have fixed: "normalizeWallet v = Some v" if "normalizeWallet w = Some v" for v
  proof -
    from that have m: "matches_wallet_regex w" and v: "v = toLowerCase w"
      by (auto simp: normalizeWallet_def split: if_splits)
    from m have c: "canonical_wallet v" unfolding v by (rule toLowerCase_canonical)
    then show ?thesis
      by (simp add: normalizeWallet_def canonical_matches canonical_fixed)
  qed
  have "Option.bind (normalizeWallet w) normalizeWallet = normalizeWallet w"
    by (cases "normalizeWallet w") (simp_all add: fixed)
  moreover have "\<forall>v. normalizeWallet w = Some v \<longrightarrow>
      v = toLowerCase w \<and> canonical_wallet v \<and> normalizeWallet v = Some v"
    using fixed by (auto simp: normalizeWallet_def toLowerCase_canonical split: if_splits)
  moreover have "normalizeWallet w = None \<longleftrightarrow>
        \<not> (\<exists>ds. w = ''0x'' @ ds \<and> length ds = 40 \<and> list_all hex_class ds)"
    by (auto simp: normalizeWallet_def matches_wallet_regex_iff)
  ultimately show ?thesis
    by (simp add: toLowerCase_idem toLowerCase_no_upper)
qed

theorem normalizeWallet_witness:
  "normalizeWallet ''0xABCDEF0123456789ABCDEF0123456789ABCDEF01''
     = Some ''0xabcdef0123456789abcdef0123456789abcdef01''
   \<and> canonical_wallet ''0xabcdef0123456789abcdef0123456789abcdef01''
   \<and> normalizeWallet ''0xabcdef0123456789abcdef0123456789abcdef01''
     = Some ''0xabcdef0123456789abcdef0123456789abcdef01''"
proof -
  have h: "normalizeWallet ''0xABCDEF0123456789ABCDEF0123456789ABCDEF01''
     = Some ''0xabcdef0123456789abcdef0123456789abcdef01''"
    by code_simp
  from normalizeWallet_idempotent_lowercase_strict
         [of "''0xABCDEF0123456789ABCDEF0123456789ABCDEF01''"] h
  show ?thesis by blast
qed

text \<open>
  Claim C10. The result of a registration does not depend on the outcome of the insert into
  the audit log: it is the same whatever failure that insert is given, and it is the success
  value with the new key exactly when the profile row was inserted.
\<close>

theorem register_success_ignores_audit:
  "fst (adminRegisterUserWithWallet (e\<lparr>audit_insert_error := f\<rparr>) reg s)
     = fst (adminRegisterUserWithWallet e reg s)
   \<and> (profiles (snd (adminRegisterUserWithWallet e reg s)) \<noteq> profiles s \<longrightarrow>
        fst (adminRegisterUserWithWallet e reg s)
          = \<lparr>success = True, profileId = Some (gen_random_uuid e), error = None\<rparr>)
   \<and> (success (fst (adminRegisterUserWithWallet e reg s)) \<longleftrightarrow>
        profiles (snd (adminRegisterUserWithWallet e reg s)) \<noteq> profiles s)"
  using register_result_cases [of e reg s] register_result_audit_free [where e = e and f = f and reg = reg and s = s]
  by auto

theorem register_success_ignores_audit_witness:
  "profiles (snd (adminRegisterUserWithWallet faulty_audit_session alice court_store))
     = [judge, alice_profile]
   \<and> wallet_audit_log (snd (adminRegisterUserWithWallet faulty_audit_session alice court_store)) = []
   \<and> fst (adminRegisterUserWithWallet faulty_audit_session alice court_store)
       = \<lparr>success = True, profileId = Some 2, error = None\<rparr>"
proof -
  have p: "profiles (snd (adminRegisterUserWithWallet faulty_audit_session alice court_store))
     = [judge, alice_profile]" by code_simp
  have a: "wallet_audit_log (snd (adminRegisterUserWithWallet faulty_audit_session alice court_store)) = []"
    by code_simp
  have n: "profiles court_store = [judge]" "gen_random_uuid faulty_audit_session = 2"
    by (simp_all add: court_store_def faulty_audit_session_def judge_session_def)
  from register_success_ignores_audit [where e = faulty_audit_session and f = None
         and reg = alice and s = court_store] p a n
  show ?thesis by simp
qed

end
